theory Spec2Isabelle
  imports Main "HOL-Library.Sublist" "HOL-Library.AList"
begin

section \<open>JavaScript strings\<close>

text \<open>
  A string is a list of characters. The model covers the Latin-1 range, which holds every
  character of the court identifiers, the jurisdiction keywords and the state names.
  \<open>toLowerCase\<close> maps A-Z and the accented capitals of Latin-1 to their small letters.
\<close>

definition lowerChar :: "char \<Rightarrow> char" where
  "lowerChar c =
     (let n = (of_char c :: nat)
      in if (65 \<le> n \<and> n \<le> 90) \<or> (192 \<le> n \<and> n \<le> 222 \<and> n \<noteq> 215)
         then char_of (n + 32) else c)"

definition toLowerCase :: "string \<Rightarrow> string" where
  "toLowerCase s = map lowerChar s"

text \<open>The class \<open>\s\<close> of a regular expression, which is also what \<open>trim\<close> removes.\<close>

definition isSpace :: "char \<Rightarrow> bool" where
  "isSpace c = ((of_char c :: nat) \<in> {9, 10, 11, 12, 13, 32, 160})"

text \<open>\<open>s.replace(/[-_\s]/g, "")\<close>\<close>

definition stripSeparators :: "string \<Rightarrow> string" where
  "stripSeparators s =
     filter (\<lambda>c. c \<noteq> CHR ''-'' \<and> c \<noteq> CHR ''_'' \<and> \<not> isSpace c) s"

definition trim :: "string \<Rightarrow> string" where
  "trim s = rev (dropWhile isSpace (rev (dropWhile isSpace s)))"

text \<open>\<open>s.split(d)\<close> for a one-character separator: the empty string gives one empty part.\<close>

fun split :: "char \<Rightarrow> string \<Rightarrow> string list" where
  "split d [] = [[]]"
| "split d (c # cs) =
     (if c = d then [] # split d cs
      else (case split d cs of [] \<Rightarrow> [[c]] | w # ws \<Rightarrow> (c # w) # ws))"

text \<open>\<open>s.includes(t)\<close>: \<open>t\<close> occurs in \<open>s\<close> as a contiguous run; the empty string always does.\<close>

fun includes_str :: "string \<Rightarrow> string \<Rightarrow> bool" where
  "includes_str [] t = (t = [])"
| "includes_str (c # cs) t = (if prefix t (c # cs) then True else includes_str cs t)"

definition startsWith :: "string \<Rightarrow> string \<Rightarrow> bool" where
  "startsWith s code = prefix code s"

text \<open>\<open>[...new Set(xs)]\<close>: the first occurrence of every element, in order.\<close>

fun uniq :: "string list \<Rightarrow> string list" where
  "uniq [] = []"
| "uniq (x # xs) = x # uniq (filter (\<lambda>y. y \<noteq> x) xs)"

section \<open>Court records and the categorizer\<close>

text \<open>
  A raw record of the listing endpoint is a \<open>Record<string, any>\<close>; a field that is
  absent (or \<open>null\<close>) is \<open>None\<close>. A field is falsy when it is absent or the empty string.
\<close>

record RawCourt =
  raw_id :: "string option"
  raw_short_name :: "string option"
  raw_full_name :: "string option"
  raw_jurisdiction :: "string option"
  raw_start_date :: "string option"
  raw_end_date :: "string option"

record CourtInfo =
  id_of :: string
  short_name :: string
  full_name :: string
  jurisdiction_of :: string
  start_date :: "string option"
  end_date :: "string option"

record CourtCache =
  federal :: "CourtInfo list"
  state :: "CourtInfo list"
  federal_bankruptcy :: "CourtInfo list"
  military :: "CourtInfo list"
  special :: "CourtInfo list"
  all_courts :: "CourtInfo list"

fun truthy :: "string option \<Rightarrow> bool" where
  "truthy None = False"
| "truthy (Some s) = (s \<noteq> [])"

text \<open>\<open>a || b\<close> where \<open>b\<close> is a string\<close>

fun orElse :: "string option \<Rightarrow> string \<Rightarrow> string" where
  "orElse None d = d"
| "orElse (Some s) d = (if s = [] then d else s)"

definition emptyCache :: CourtCache where
  "emptyCache = \<lparr>federal = [], state = [], federal_bankruptcy = [], military = [],
     special = [], all_courts = []\<rparr>"

definition mkCourtInfo :: "RawCourt \<Rightarrow> string \<Rightarrow> string \<Rightarrow> CourtInfo" where
  "mkCourtInfo court i j =
     \<lparr>id_of = i,
      short_name = orElse (raw_short_name court) i,
      full_name = orElse (raw_full_name court) (orElse (raw_short_name court) i),
      jurisdiction_of = j,
      start_date = raw_start_date court,
      end_date = raw_end_date court\<rparr>"

text \<open>The body of the \<open>forEach\<close> of \<open>categorizeCourtsByJurisdiction\<close>.\<close>

definition categorizeStep :: "CourtCache \<Rightarrow> RawCourt \<Rightarrow> CourtCache" where
  "categorizeStep categorized court =
     (case (raw_id court, raw_jurisdiction court) of
        (Some i, Some j) \<Rightarrow>
          if i = [] \<or> j = [] then categorized
          else
            let courtInfo = mkCourtInfo court i j;
                c1 = categorized\<lparr>all_courts := all_courts categorized @ [courtInfo]\<rparr>
            in if j = ''F'' then c1\<lparr>federal := federal c1 @ [courtInfo]\<rparr>
               else if j = ''ST'' then c1\<lparr>state := state c1 @ [courtInfo]\<rparr>
               else if j = ''FB''
                 then c1\<lparr>federal_bankruptcy := federal_bankruptcy c1 @ [courtInfo]\<rparr>
               else if j = ''MA'' then c1\<lparr>military := military c1 @ [courtInfo]\<rparr>
               else if j = ''FS'' then c1\<lparr>special := special c1 @ [courtInfo]\<rparr>
               else c1\<lparr>special := special c1 @ [courtInfo]\<rparr>
      | _ \<Rightarrow> categorized)"

definition categorizeCourtsByJurisdiction :: "RawCourt list \<Rightarrow> CourtCache" where
  "categorizeCourtsByJurisdiction courts = foldl categorizeStep emptyCache courts"

text \<open>What the categorizer is compared with: the usable records, and their normal form.\<close>

definition usable :: "RawCourt \<Rightarrow> bool" where
  "usable court = (truthy (raw_id court) \<and> truthy (raw_jurisdiction court))"

definition infoOf :: "RawCourt \<Rightarrow> CourtInfo" where
  "infoOf court =
     mkCourtInfo court (orElse (raw_id court) []) (orElse (raw_jurisdiction court) [])"

definition knownCodes :: "string list" where
  "knownCodes = [''F'', ''ST'', ''FB'', ''MA'']"

definition isSpecial :: "CourtInfo \<Rightarrow> bool" where
  "isSpecial c = (\<not> List.member knownCodes (jurisdiction_of c))"

section \<open>The live resolver\<close>

datatype error = CacheNotAvailable | Unrecognized string | TypeError

text \<open>
  The table of \<open>findCourtsByState\<close>, in the order of the object literal. The same literal
  is declared by the resource generator.
\<close>

definition stateAbbreviations :: "(string \<times> string list) list" where
  "stateAbbreviations =
    [(''california'', [''ca'', ''cal'']), (''newyork'', [''ny'']), (''new-york'', [''ny'']),
     (''texas'', [''tx'', ''tex'']), (''florida'', [''fl'', ''fla'']),
     (''illinois'', [''il'', ''ill'']), (''ohio'', [''oh'']), (''pennsylvania'', [''pa'']),
     (''michigan'', [''mi'']), (''georgia'', [''ga'']), (''northcarolina'', [''nc'']),
     (''north-carolina'', [''nc'']), (''newjersey'', [''nj'']), (''new-jersey'', [''nj'']),
     (''virginia'', [''va'']), (''washington'', [''wa'']), (''arizona'', [''az'']),
     (''massachusetts'', [''ma'']), (''tennessee'', [''tn'', ''tenn'']),
     (''indiana'', [''in'']), (''missouri'', [''mo'']), (''maryland'', [''md'']),
     (''wisconsin'', [''wi'']), (''colorado'', [''co'']), (''minnesota'', [''mn'']),
     (''southcarolina'', [''sc'']), (''south-carolina'', [''sc'']), (''alabama'', [''al'']),
     (''louisiana'', [''la'']), (''kentucky'', [''ky'']), (''oregon'', [''or'']),
     (''oklahoma'', [''ok'']), (''connecticut'', [''ct'', ''conn'']), (''utah'', [''ut'']),
     (''iowa'', [''ia'']), (''nevada'', [''nv'']), (''arkansas'', [''ar'']),
     (''mississippi'', [''ms'']), (''kansas'', [''ks'']), (''newmexico'', [''nm'']),
     (''new-mexico'', [''nm'']), (''nebraska'', [''ne'']), (''westvirginia'', [''wv'']),
     (''west-virginia'', [''wv'']), (''idaho'', [''id'']), (''hawaii'', [''hi'']),
     (''newhampshire'', [''nh'']), (''new-hampshire'', [''nh'']), (''maine'', [''me'']),
     (''montana'', [''mt'']), (''rhodeisland'', [''ri'']), (''rhode-island'', [''ri'']),
     (''delaware'', [''de'']), (''southdakota'', [''sd'']), (''south-dakota'', [''sd'']),
     (''northdakota'', [''nd'']), (''north-dakota'', [''nd'']), (''alaska'', [''ak'']),
     (''vermont'', [''vt'']), (''wyoming'', [''wy''])]"

text \<open>
  Reading a property of an object literal also finds what \<open>Object.prototype\<close> supplies:
  for these names the read gives a function or an object, which is truthy and no array.
\<close>

definition objectPrototypeKeys :: "string list" where
  "objectPrototypeKeys =
    [''constructor'', ''__proto__'', ''hasOwnProperty'', ''isPrototypeOf'',
     ''propertyIsEnumerable'', ''toLocaleString'', ''toString'', ''valueOf'',
     ''__defineGetter__'', ''__defineSetter__'', ''__lookupGetter__'', ''__lookupSetter__'']"

datatype property = Undefined | Own "string list" | Inherited

definition getProperty :: "(string \<times> string list) list \<Rightarrow> string \<Rightarrow> property" where
  "getProperty obj k =
     (case map_of obj k of
        Some v \<Rightarrow> Own v
      | None \<Rightarrow> if List.member objectPrototypeKeys k then Inherited else Undefined)"

text \<open>
  \<open>stateAbbreviations[stateName] || stateAbbreviations[stateName.replace(/[-_\s]/g, "")]
  || [stateName]\<close>: an array is truthy, also when empty.
\<close>

definition stateCodes :: "string \<Rightarrow> property" where
  "stateCodes stateName =
     (case getProperty stateAbbreviations stateName of
        Undefined \<Rightarrow>
          (case getProperty stateAbbreviations (stripSeparators stateName) of
             Undefined \<Rightarrow> Own [stateName]
           | p \<Rightarrow> p)
      | p \<Rightarrow> p)"

definition matchesCodes :: "string list \<Rightarrow> CourtInfo \<Rightarrow> bool" where
  "matchesCodes codes court =
     list_ex (\<lambda>code. startsWith (toLowerCase (id_of court)) code) codes"

text \<open>
  \<open>findCourtsByState\<close> of the server filters the state courts of the cache. When the codes
  are no array, \<open>stateCodes.some\<close> is no function and the first call of the filter's
  callback throws.
\<close>

definition findCourtsByState :: "CourtCache option \<Rightarrow> string \<Rightarrow> error + string list" where
  "findCourtsByState courtCache stateName =
     (case courtCache of
        None \<Rightarrow> Inr []
      | Some cache \<Rightarrow>
          (case stateCodes stateName of
             Own codes \<Rightarrow> Inr (map id_of (filter (matchesCodes codes) (state cache)))
           | _ \<Rightarrow> if state cache = [] then Inr [] else Inl TypeError))"

definition knownId :: "CourtCache \<Rightarrow> string \<Rightarrow> bool" where
  "knownId cache i = list_ex (\<lambda>c. id_of c = i) (all_courts cache)"

definition nameContains :: "string \<Rightarrow> CourtInfo \<Rightarrow> bool" where
  "nameContains key court =
     (if includes_str (toLowerCase (short_name court)) key then True
      else includes_str (toLowerCase (full_name court)) key)"

definition normalize :: "string \<Rightarrow> string" where
  "normalize jurisdiction = stripSeparators (toLowerCase jurisdiction)"

text \<open>
  \<open>resolveJurisdiction\<close> of the server that discovers the courts itself, after
  \<open>ensureCourtCache\<close> has run: the argument is \<open>this.courtCache\<close>.
\<close>

definition resolveJurisdiction :: "CourtCache option \<Rightarrow> string \<Rightarrow> error + string list" where
  "resolveJurisdiction courtCache jurisdiction =
     (case courtCache of
        None \<Rightarrow> Inl CacheNotAvailable
      | Some cache \<Rightarrow>
          let normalized = normalize jurisdiction;
              lowerOriginal = toLowerCase jurisdiction
          in if normalized = ''all'' then Inr []
             else if normalized = ''federal'' then Inr (map id_of (federal cache))
             else if normalized = ''state'' then Inr (map id_of (state cache))
             else if normalized = ''federalbankruptcy'' \<or> normalized = ''bankruptcy''
               then Inr (map id_of (federal_bankruptcy cache))
             else if normalized = ''military'' then Inr (map id_of (military cache))
             else if normalized = ''special'' then Inr (map id_of (special cache))
             else if List.member jurisdiction CHR '',''
               then Inr (filter (knownId cache) (map trim (split CHR '','' jurisdiction)))
             else if knownId cache jurisdiction then Inr [jurisdiction]
             else
               (case findCourtsByState courtCache lowerOriginal of
                  Inl e \<Rightarrow> Inl e
                | Inr first \<Rightarrow>
                    (case (if first = [] then findCourtsByState courtCache normalized
                           else Inr first) of
                       Inl e \<Rightarrow> Inl e
                     | Inr stateResults \<Rightarrow>
                         if stateResults \<noteq> [] then Inr stateResults
                         else
                           let partialMatches =
                                 filter (nameContains normalized) (all_courts cache)
                           in if partialMatches \<noteq> []
                              then Inr (map id_of (take 50 partialMatches))
                              else Inl (Unrecognized jurisdiction))))"

definition sentinelKeys :: "string list" where
  "sentinelKeys =
    [''all'', ''federal'', ''state'', ''federalbankruptcy'', ''bankruptcy'', ''military'',
     ''special'']"

text \<open>The keyword triggers of \<open>suggestSimilarJurisdictions\<close>, in the order of the source.\<close>

definition keywordSuggestions :: "string \<Rightarrow> string list" where
  "keywordSuggestions n =
     (if includes_str n ''fed'' then [''federal''] else []) @
     (if includes_str n ''state'' then [''state''] else []) @
     (if includes_str n ''supreme'' then [''scotus''] else []) @
     (if includes_str n ''ca'' \<and> \<not> includes_str n ''cal'' then [''california''] else []) @
     (if includes_str n ''ny'' then [''new-york''] else []) @
     (if includes_str n ''south'' \<and> includes_str n ''carolina''
        then [''south-carolina''] else []) @
     (if includes_str n ''north'' \<and> includes_str n ''carolina''
        then [''north-carolina''] else []) @
     (if includes_str n ''south'' \<and> includes_str n ''dakota''
        then [''south-dakota''] else []) @
     (if includes_str n ''north'' \<and> includes_str n ''dakota''
        then [''north-dakota''] else []) @
     (if includes_str n ''new'' \<and> includes_str n ''jersey'' then [''new-jersey''] else []) @
     (if includes_str n ''new'' \<and> includes_str n ''mexico'' then [''new-mexico''] else []) @
     (if includes_str n ''west'' \<and> includes_str n ''virginia''
        then [''west-virginia''] else []) @
     (if includes_str n ''new'' \<and> includes_str n ''hampshire''
        then [''new-hampshire''] else []) @
     (if includes_str n ''rhode'' \<and> includes_str n ''island''
        then [''rhode-island''] else [])"

definition suggestSimilarJurisdictions :: "CourtCache option \<Rightarrow> string \<Rightarrow> string list" where
  "suggestSimilarJurisdictions courtCache input =
     (case courtCache of
        None \<Rightarrow> []
      | Some cache \<Rightarrow>
          let normalized = toLowerCase input;
              suggestions =
                map id_of (filter (nameContains normalized) (take 100 (all_courts cache)))
                @ keywordSuggestions normalized
          in take 5 (uniq suggestions))"

section \<open>The resource generator and the resolver over its mapping file\<close>

text \<open>\<open>findCourtsByState\<close> of the generator filters all the courts and returns the records.\<close>

definition findCourtsByState_generator ::
  "string \<Rightarrow> CourtCache \<Rightarrow> error + CourtInfo list" where
  "findCourtsByState_generator stateName courts =
     (case stateCodes stateName of
        Own codes \<Rightarrow> Inr (filter (matchesCodes codes) (all_courts courts))
      | _ \<Rightarrow> if all_courts courts = [] then Inr [] else Inl TypeError)"

definition stateVariations :: "(string list \<times> string list) list" where
  "stateVariations =
    [([''california'', ''ca'', ''calif''], [''ca'', ''cal'']),
     ([''new-york'', ''newyork'', ''ny''], [''ny'']),
     ([''texas'', ''tx'', ''tex''], [''tx'', ''tex'']),
     ([''florida'', ''fl'', ''fla''], [''fl'', ''fla'']),
     ([''south-carolina'', ''southcarolina'', ''sc''], [''sc'']),
     ([''north-carolina'', ''northcarolina'', ''nc''], [''nc'']),
     ([''new-jersey'', ''newjersey'', ''nj''], [''nj'']),
     ([''new-mexico'', ''newmexico'', ''nm''], [''nm'']),
     ([''west-virginia'', ''westvirginia'', ''wv''], [''wv'']),
     ([''new-hampshire'', ''newhampshire'', ''nh''], [''nh'']),
     ([''rhode-island'', ''rhodeisland'', ''ri''], [''ri'']),
     ([''south-dakota'', ''southdakota'', ''sd''], [''sd'']),
     ([''north-dakota'', ''northdakota'', ''nd''], [''nd'']),
     ([''illinois'', ''il'', ''ill''], [''il'', ''ill'']),
     ([''ohio'', ''oh''], [''oh'']),
     ([''pennsylvania'', ''pa''], [''pa'']),
     ([''michigan'', ''mi''], [''mi'']),
     ([''georgia'', ''ga''], [''ga'']),
     ([''virginia'', ''va''], [''va'']),
     ([''washington'', ''wa''], [''wa'']),
     ([''arizona'', ''az''], [''az'']),
     ([''massachusetts'', ''ma''], [''ma'']),
     ([''tennessee'', ''tn'', ''tenn''], [''tn'', ''tenn'']),
     ([''indiana'', ''in''], [''in'']),
     ([''missouri'', ''mo''], [''mo'']),
     ([''maryland'', ''md''], [''md'']),
     ([''wisconsin'', ''wi''], [''wi'']),
     ([''colorado'', ''co''], [''co'']),
     ([''minnesota'', ''mn''], [''mn'']),
     ([''alabama'', ''al''], [''al'']),
     ([''louisiana'', ''la''], [''la'']),
     ([''kentucky'', ''ky''], [''ky'']),
     ([''oregon'', ''or''], [''or'']),
     ([''oklahoma'', ''ok''], [''ok'']),
     ([''connecticut'', ''ct'', ''conn''], [''ct'', ''conn'']),
     ([''utah'', ''ut''], [''ut'']),
     ([''iowa'', ''ia''], [''ia'']),
     ([''nevada'', ''nv''], [''nv'']),
     ([''arkansas'', ''ar''], [''ar'']),
     ([''mississippi'', ''ms''], [''ms'']),
     ([''kansas'', ''ks''], [''ks'']),
     ([''nebraska'', ''ne''], [''ne'']),
     ([''idaho'', ''id''], [''id'']),
     ([''hawaii'', ''hi''], [''hi'']),
     ([''maine'', ''me''], [''me'']),
     ([''montana'', ''mt''], [''mt'']),
     ([''delaware'', ''de''], [''de'']),
     ([''alaska'', ''ak''], [''ak'']),
     ([''vermont'', ''vt''], [''vt'']),
     ([''wyoming'', ''wy''], [''wy''])]"

text \<open>
  \<open>generateMappingResources\<close>: the object \<open>mappings\<close> as the list of its keys in insertion
  order; assigning to a key that exists replaces its value in place.
\<close>

definition assignNames ::
  "CourtCache \<Rightarrow> (string \<times> string list) list \<Rightarrow> string list \<times> string list
   \<Rightarrow> (string \<times> string list) list" where
  "assignNames courts mappings variation =
     (let stateCourts =
            map id_of (filter (matchesCodes (snd variation)) (all_courts courts))
      in foldl (\<lambda>m name. AList.update name stateCourts m) mappings (fst variation))"

definition generateMappingResources :: "CourtCache \<Rightarrow> (string \<times> string list) list" where
  "generateMappingResources courts =
     foldl (assignNames courts)
       [(''all'', []),
        (''federal'', map id_of (federal courts)),
        (''state'', map id_of (state courts)),
        (''bankruptcy'', map id_of (federal_bankruptcy courts)),
        (''federal-bankruptcy'', map id_of (federal_bankruptcy courts)),
        (''military'', map id_of (military courts)),
        (''special'', map id_of (special courts))]
       stateVariations"

text \<open>
  \<open>CourtResourceManager.resolveJurisdiction\<close>. The argument is the parsed mapping file,
  \<open>None\<close> when reading or parsing it throws; the \<open>catch\<close> returns the empty array.
  The result is \<open>mappings.mappings[lowerJurisdiction] || []\<close>.
\<close>

definition CourtResourceManager_resolveJurisdiction ::
  "(string \<times> string list) list option \<Rightarrow> string \<Rightarrow> property" where
  "CourtResourceManager_resolveJurisdiction file jurisdiction =
     (case file of
        None \<Rightarrow> Own []
      | Some mappings \<Rightarrow>
          (case getProperty mappings (toLowerCase jurisdiction) of
             Undefined \<Rightarrow> Own []
           | p \<Rightarrow> p))"

text \<open>
  \<open>resolveJurisdiction\<close> of the server that reads the resources: it throws when the
  manager's result has length 0. An inherited value (\<open>constructor\<close>, \<open>__proto__\<close>) has
  another length, or none, and is returned.
\<close>

definition resolveJurisdiction_resources ::
  "(string \<times> string list) list option \<Rightarrow> string \<Rightarrow> error + property" where
  "resolveJurisdiction_resources file jurisdiction =
     (case CourtResourceManager_resolveJurisdiction file jurisdiction of
        Own courtIds \<Rightarrow>
          if courtIds = [] then Inl (Unrecognized jurisdiction) else Inr (Own courtIds)
      | p \<Rightarrow> Inr p)"

definition CourtResourceManager_suggestSimilarJurisdictions ::
  "(string \<times> string list) list option \<Rightarrow> string \<Rightarrow> string list" where
  "CourtResourceManager_suggestSimilarJurisdictions file input =
     (case file of
        None \<Rightarrow> []
      | Some mappings \<Rightarrow>
          take 5 (filter (\<lambda>key. includes_str key (toLowerCase input)) (map fst mappings)))"

text \<open>The sample courts of \<open>createSampleCourtsData\<close>.\<close>

definition sampleCourt :: "string \<Rightarrow> string \<Rightarrow> string \<Rightarrow> string \<Rightarrow> RawCourt" where
  "sampleCourt i s f j =
     \<lparr>raw_id = Some i, raw_short_name = Some s, raw_full_name = Some f,
      raw_jurisdiction = Some j, raw_start_date = None, raw_end_date = None\<rparr>"

definition sampleAllCourts :: "RawCourt list" where
  "sampleAllCourts =
    [sampleCourt ''scotus'' ''U.S.'' ''Supreme Court of the United States'' ''F'',
     sampleCourt ''ca9'' ''9th Cir.''
       ''United States Court of Appeals for the Ninth Circuit'' ''F'',
     sampleCourt ''ca2'' ''2nd Cir.''
       ''United States Court of Appeals for the Second Circuit'' ''F'',
     sampleCourt ''cacd'' ''C.D. Cal.''
       ''United States District Court for the Central District of California'' ''F'',
     sampleCourt ''nysd'' ''S.D.N.Y.''
       ''United States District Court for the Southern District of New York'' ''F'',
     sampleCourt ''cal'' ''Cal.'' ''Supreme Court of California'' ''ST'',
     sampleCourt ''ny'' ''N.Y.'' ''New York Court of Appeals'' ''ST'',
     sampleCourt ''tex'' ''Tex.'' ''Supreme Court of Texas'' ''ST'',
     sampleCourt ''fla'' ''Fla.'' ''Supreme Court of Florida'' ''ST'',
     sampleCourt ''sc'' ''S.C.'' ''Supreme Court of South Carolina'' ''ST'',
     sampleCourt ''cacb'' ''Bankr. C.D. Cal.''
       ''United States Bankruptcy Court for the Central District of California'' ''FB'',
     sampleCourt ''nysb'' ''Bankr. S.D.N.Y.''
       ''United States Bankruptcy Court for the Southern District of New York'' ''FB'',
     sampleCourt ''asbca'' ''A.S.B.C.A.'' ''Armed Services Board of Contract Appeals'' ''MA'',
     sampleCourt ''tax'' ''T.C.'' ''United States Tax Court'' ''FS'']"

definition createSampleCourtsData :: CourtCache where
  "createSampleCourtsData = categorizeCourtsByJurisdiction sampleAllCourts"

text \<open>Four of the sample courts, as a small directory for concrete runs.\<close>

definition fourCourts :: "RawCourt list" where
  "fourCourts =
    [sampleCourt ''scotus'' ''U.S.'' ''Supreme Court of the United States'' ''F'',
     sampleCourt ''ca9'' ''9th Cir.''
       ''United States Court of Appeals for the Ninth Circuit'' ''F'',
     sampleCourt ''cacd'' ''C.D. Cal.''
       ''United States District Court for the Central District of California'' ''F'',
     sampleCourt ''cal'' ''Cal.'' ''Supreme Court of California'' ''ST'']"

definition fourDirectory :: CourtCache where
  "fourDirectory = categorizeCourtsByJurisdiction fourCourts"

section \<open>Acquisition and the cache\<close>

text \<open>
  The listing endpoint, seen from one run of \<open>discoverCourts\<close>: the answer to the request
  for a page is either a failure (the request throws, or the page has no \<open>results\<close>
  array) or the records of the page with the truth value of \<open>next\<close>.
\<close>

type_synonym pageSource = "nat \<Rightarrow> unit + (RawCourt list \<times> bool)"

text \<open>
  The \<open>while\<close> loop of \<open>discoverCourts\<close>. A failure anywhere in the loop is caught and
  the function returns the empty array. The loop need not end: the result is \<open>None\<close>
  when it does not.
\<close>

partial_function (option) discoverLoop ::
  "pageSource \<Rightarrow> RawCourt list \<Rightarrow> nat \<Rightarrow> bool \<Rightarrow> RawCourt list option" where
  "discoverLoop source allCourts page hasMore =
     (if hasMore \<and> length allCourts < 4000
      then (case source page of
              Inl _ \<Rightarrow> Some []
            | Inr (results, nxt) \<Rightarrow> discoverLoop source (allCourts @ results) (page + 1) nxt)
      else Some allCourts)"

definition discoverCourts :: "pageSource \<Rightarrow> RawCourt list option" where
  "discoverCourts source = discoverLoop source [] 1 True"

record server =
  courtCache :: "CourtCache option"
  cacheExpiry :: "int option"

definition CACHE_DURATION :: int where
  "CACHE_DURATION = 15 * 24 * 60 * 60 * 1000"

text \<open>\<open>!this.courtCache || !this.cacheExpiry || now > this.cacheExpiry\<close>, times in milliseconds\<close>

definition needsRefresh :: "server \<Rightarrow> int \<Rightarrow> bool" where
  "needsRefresh s now =
     (case (courtCache s, cacheExpiry s) of
        (Some _, Some expiry) \<Rightarrow> now > expiry
      | _ \<Rightarrow> True)"

definition storeCourts :: "server \<Rightarrow> int \<Rightarrow> RawCourt list \<Rightarrow> server" where
  "storeCourts s now courts =
     s\<lparr>courtCache := Some (categorizeCourtsByJurisdiction courts),
       cacheExpiry := Some (now + CACHE_DURATION)\<rparr>"

text \<open>\<open>ensureCourtCache\<close>, run without interruption; \<open>None\<close> when the acquisition never returns.\<close>

definition ensureCourtCache :: "pageSource \<Rightarrow> int \<Rightarrow> server \<Rightarrow> server option" where
  "ensureCourtCache source now s =
     (if needsRefresh s now
      then (case discoverCourts source of
              None \<Rightarrow> None
            | Some courts \<Rightarrow> Some (storeCourts s now courts))
      else Some s)"

text \<open>
  \<open>ensureCourtCache\<close> is an \<open>async\<close> method with one \<open>await\<close>: a call runs up to the
  \<open>await\<close> (it reads the clock, tests the cache and, if the test says so, starts an
  acquisition), and later, when the acquisition has settled, from the \<open>await\<close> to the
  end. Between the two, other calls run. \<open>Call i now\<close> is the first part of call \<open>i\<close>,
  \<open>Settle i courts\<close> the second, with the records the acquisition of call \<open>i\<close> gave.
\<close>

datatype event = Call nat int | Settle nat "RawCourt list"

record runtime =
  srv :: server
  acquisitions :: nat
  inflight :: "(nat \<times> int) list"

definition step :: "runtime \<Rightarrow> event \<Rightarrow> runtime" where
  "step r e =
     (case e of
        Call i now \<Rightarrow>
          if needsRefresh (srv r) now
          then r\<lparr>acquisitions := acquisitions r + 1, inflight := (i, now) # inflight r\<rparr>
          else r
      | Settle i courts \<Rightarrow>
          (case map_of (inflight r) i of
             None \<Rightarrow> r
           | Some now \<Rightarrow>
               r\<lparr>srv := storeCourts (srv r) now courts,
                 inflight := AList.delete i (inflight r)\<rparr>))"

definition run :: "runtime \<Rightarrow> event list \<Rightarrow> runtime" where
  "run r es = foldl step r es"

fun observesStale :: "server \<Rightarrow> event \<Rightarrow> bool" where
  "observesStale s (Call i now) = needsRefresh s now"
| "observesStale s (Settle i courts) = False"

text \<open>Page sources for concrete runs, and the conditions on a page source.\<close>

definition failingSource :: pageSource where
  "failingSource page = Inl ()"

definition emptyForever :: pageSource where
  "emptyForever page = Inr ([], True)"

text \<open>
  A failed acquisition, said of the page source: the pages before page \<open>k\<close> are delivered
  and each announces a further page, they hold fewer than 4000 records together, and the
  request for page \<open>k\<close> fails. \<open>fetched source k\<close> is what the pages before \<open>k\<close> hold.
\<close>

definition pageRecords :: "pageSource \<Rightarrow> nat \<Rightarrow> RawCourt list" where
  "pageRecords source page =
     (case source page of Inl _ \<Rightarrow> [] | Inr (results, nxt) \<Rightarrow> results)"

definition fetched :: "pageSource \<Rightarrow> nat \<Rightarrow> RawCourt list" where
  "fetched source k = concat (map (pageRecords source) [1..<k])"

definition failsAtPage :: "pageSource \<Rightarrow> nat \<Rightarrow> bool" where
  "failsAtPage source k =
     (1 \<le> k \<and> source k = Inl ()
      \<and> (\<forall>page. 1 \<le> page \<and> page < k \<longrightarrow> (\<exists>results. source page = Inr (results, True)))
      \<and> length (fetched source k) < 4000)"

text \<open>The first page holds the four sample courts and announces a second, which fails.\<close>

definition failsSecond :: pageSource where
  "failsSecond page = (if page = 1 then Inr (fourCourts, True) else Inl ())"

text \<open>Every page that announces a further page holds at least one record.\<close>

definition productive :: "pageSource \<Rightarrow> bool" where
  "productive source =
     (\<forall>page results. source page = Inr (results, True) \<longrightarrow> results \<noteq> [])"

text \<open>No page holds more than \<open>n\<close> records (the request asks for \<open>page_size: 200\<close>).\<close>

definition pageLimit :: "nat \<Rightarrow> pageSource \<Rightarrow> bool" where
  "pageLimit n source =
     (\<forall>page results nxt. source page = Inr (results, nxt) \<longrightarrow> length results \<le> n)"

definition expiredServer :: server where
  "expiredServer = \<lparr>courtCache = Some fourDirectory, cacheExpiry = Some 0\<rparr>"

definition freshServer :: server where
  "freshServer = \<lparr>courtCache = None, cacheExpiry = None\<rparr>"

text \<open>
  Every page that announces a further page holds exactly the 200 records asked for, and a
  last page holds at most 200.
\<close>

definition fullPages :: "pageSource \<Rightarrow> bool" where
  "fullPages source =
     (\<forall>page results nxt. source page = Inr (results, nxt) \<longrightarrow>
        (if nxt then length results = 200 else length results \<le> 200))"

definition fullThenLast :: pageSource where
  "fullThenLast page =
     (if page = 1 then Inr (replicate 200 (sampleCourt ''ca9'' ''9th Cir.'' ''9th Cir.'' ''F''), True)
      else Inr (fourCourts, False))"

definition expiredRuntime :: runtime where
  "expiredRuntime = \<lparr>srv = expiredServer, acquisitions = 0, inflight = []\<rparr>"

text \<open>
  A directory where the misspelling itself occurs in the short name of one court and in
  the full name of another, and in neither name of a third.
\<close>

definition typoDirectory :: CourtCache where
  "typoDirectory =
     categorizeCourtsByJurisdiction
       [sampleCourt ''calx'' ''Calfornia Ct.'' ''Typo Court'' ''ST'',
        sampleCourt ''tax'' ''T.C.'' ''United States Tax Court'' ''FS'',
        sampleCourt ''caly'' ''Y.C.'' ''Court of Calfornia'' ''ST'']"

section \<open>The categorizer builds a partition\<close>

lemma usable_step:
  "usable x \<Longrightarrow> categorizeStep c x =
     (let i = infoOf x; j = jurisdiction_of i;
          c1 = c\<lparr>all_courts := all_courts c @ [i]\<rparr>
      in if j = ''F'' then c1\<lparr>federal := federal c1 @ [i]\<rparr>
         else if j = ''ST'' then c1\<lparr>state := state c1 @ [i]\<rparr>
         else if j = ''FB'' then c1\<lparr>federal_bankruptcy := federal_bankruptcy c1 @ [i]\<rparr>
         else if j = ''MA'' then c1\<lparr>military := military c1 @ [i]\<rparr>
         else c1\<lparr>special := special c1 @ [i]\<rparr>)"
  by (cases "raw_id x"; cases "raw_jurisdiction x")
     (simp_all add: usable_def categorizeStep_def infoOf_def mkCourtInfo_def Let_def)

lemma unusable_step: "\<not> usable x \<Longrightarrow> categorizeStep c x = c"
  by (cases "raw_id x"; cases "raw_jurisdiction x")
     (auto simp add: usable_def categorizeStep_def)

lemma foldl_categorize:
  "foldl categorizeStep c xs =
     (let new = map infoOf (filter usable xs)
      in \<lparr>federal = federal c @ filter (\<lambda>i. jurisdiction_of i = ''F'') new,
          state = state c @ filter (\<lambda>i. jurisdiction_of i = ''ST'') new,
          federal_bankruptcy =
            federal_bankruptcy c @ filter (\<lambda>i. jurisdiction_of i = ''FB'') new,
          military = military c @ filter (\<lambda>i. jurisdiction_of i = ''MA'') new,
          special = special c @ filter isSpecial new,
          all_courts = all_courts c @ new\<rparr>)"
proof (induction xs arbitrary: c)
  case Nil
  show ?case by simp
next
  case (Cons x xs)
  show ?case
  proof (cases "usable x")
    case True
    then show ?thesis
      by (simp add: Cons.IH usable_step Let_def isSpecial_def knownCodes_def)
  next
    case False
    then show ?thesis by (simp add: Cons.IH unusable_step)
  qed
qed

lemma partition_length:
  "length (filter (\<lambda>i. jurisdiction_of i = ''F'') xs)
   + length (filter (\<lambda>i. jurisdiction_of i = ''ST'') xs)
   + length (filter (\<lambda>i. jurisdiction_of i = ''FB'') xs)
   + length (filter (\<lambda>i. jurisdiction_of i = ''MA'') xs)
   + length (filter isSpecial xs) = length xs"
  by (induction xs) (auto simp add: isSpecial_def knownCodes_def)

lemma categorize_eq:
  "categorizeCourtsByJurisdiction xs =
     (let new = map infoOf (filter usable xs)
      in \<lparr>federal = filter (\<lambda>i. jurisdiction_of i = ''F'') new,
          state = filter (\<lambda>i. jurisdiction_of i = ''ST'') new,
          federal_bankruptcy = filter (\<lambda>i. jurisdiction_of i = ''FB'') new,
          military = filter (\<lambda>i. jurisdiction_of i = ''MA'') new,
          special = filter isSpecial new,
          all_courts = new\<rparr>)"
  by (simp add: categorizeCourtsByJurisdiction_def foldl_categorize emptyCache_def)

lemma categorize_Nil: "categorizeCourtsByJurisdiction [] = emptyCache"
  by (simp add: categorizeCourtsByJurisdiction_def)

text \<open>
  Claim C4. For every raw record sequence the directory's full sequence is the usable
  records (those with a non-empty id and a non-empty jurisdiction code) in input order, in
  normal form; each of the five category sequences is the stable filter of the full
  sequence by the jurisdiction code, where SPECIAL takes every code that is none of F, ST,
  FB, MA (so FS and every unrecognized code); hence the five lengths add up to the length
  of the full sequence. The categorizer is a function of its input alone, so a second run
  on the same records gives the same directory and the same counts.
\<close>

theorem categorizer_partition:
  "all_courts (categorizeCourtsByJurisdiction xs) = map infoOf (filter usable xs)
    \<and> federal (categorizeCourtsByJurisdiction xs)
        = filter (\<lambda>i. jurisdiction_of i = ''F'') (all_courts (categorizeCourtsByJurisdiction xs))
    \<and> state (categorizeCourtsByJurisdiction xs)
        = filter (\<lambda>i. jurisdiction_of i = ''ST'') (all_courts (categorizeCourtsByJurisdiction xs))
    \<and> federal_bankruptcy (categorizeCourtsByJurisdiction xs)
        = filter (\<lambda>i. jurisdiction_of i = ''FB'') (all_courts (categorizeCourtsByJurisdiction xs))
    \<and> military (categorizeCourtsByJurisdiction xs)
        = filter (\<lambda>i. jurisdiction_of i = ''MA'') (all_courts (categorizeCourtsByJurisdiction xs))
    \<and> special (categorizeCourtsByJurisdiction xs)
        = filter isSpecial (all_courts (categorizeCourtsByJurisdiction xs))
    \<and> length (federal (categorizeCourtsByJurisdiction xs))
        + length (state (categorizeCourtsByJurisdiction xs))
        + length (federal_bankruptcy (categorizeCourtsByJurisdiction xs))
        + length (military (categorizeCourtsByJurisdiction xs))
        + length (special (categorizeCourtsByJurisdiction xs))
        = length (all_courts (categorizeCourtsByJurisdiction xs))"
proof -
  let ?new = "map infoOf (filter usable xs)"
  have fields:
    "all_courts (categorizeCourtsByJurisdiction xs) = ?new"
    "federal (categorizeCourtsByJurisdiction xs) = filter (\<lambda>i. jurisdiction_of i = ''F'') ?new"
    "state (categorizeCourtsByJurisdiction xs) = filter (\<lambda>i. jurisdiction_of i = ''ST'') ?new"
    "federal_bankruptcy (categorizeCourtsByJurisdiction xs)
       = filter (\<lambda>i. jurisdiction_of i = ''FB'') ?new"
    "military (categorizeCourtsByJurisdiction xs) = filter (\<lambda>i. jurisdiction_of i = ''MA'') ?new"
    "special (categorizeCourtsByJurisdiction xs) = filter isSpecial ?new"
    by (simp_all only: categorize_eq Let_def CourtCache.simps)
  show ?thesis
    by (simp only: fields partition_length simp_thms)
qed

text \<open>Claim C4 on the four sample courts: three federal, one state, four in all.\<close>

theorem categorizer_partition_witness:
  "length (all_courts (categorizeCourtsByJurisdiction fourCourts)) = 4
   \<and> length (federal (categorizeCourtsByJurisdiction fourCourts)) = 3
   \<and> length (state (categorizeCourtsByJurisdiction fourCourts)) = 1"
  using categorizer_partition[of fourCourts]
  by (simp add: fourCourts_def usable_def sampleCourt_def infoOf_def mkCourtInfo_def)

section \<open>The strategies of the live resolver\<close>

lemma comma_normalize: "CHR '','' \<in> set tok \<Longrightarrow> CHR '','' \<in> set (normalize tok)"
  by (auto simp add: normalize_def toLowerCase_def stripSeparators_def isSpace_def lowerChar_def
      image_iff intro!: bexI[of _ "CHR '',''"])

lemma comma_not_sentinel:
  assumes "CHR '','' \<in> set tok"
  shows "normalize tok \<notin> set sentinelKeys"
proof
  assume "normalize tok \<in> set sentinelKeys"
  moreover have "\<forall>k \<in> set sentinelKeys. CHR '','' \<notin> set k"
    by (simp add: sentinelKeys_def)
  ultimately show False using comma_normalize[OF assms] by blast
qed

lemma resolve_comma:
  assumes "CHR '','' \<in> set tok"
  shows "resolveJurisdiction (Some c) tok =
           Inr (filter (knownId c) (map trim (split CHR '','' tok)))"
  using assms comma_not_sentinel[OF assms]
  by (simp add: resolveJurisdiction_def sentinelKeys_def Let_def)

lemma resolve_exact:
  assumes "normalize tok \<notin> set sentinelKeys" "CHR '','' \<notin> set tok" "knownId c tok"
  shows "resolveJurisdiction (Some c) tok = Inr [tok]"
  using assms by (simp add: resolveJurisdiction_def sentinelKeys_def Let_def)

lemma resolve_all: "resolveJurisdiction (Some c) ''all'' = Inr []"
proof -
  have "normalize ''all'' = ''all''" by code_simp
  then show ?thesis by (simp add: resolveJurisdiction_def Let_def)
qed

lemma split_example:
  "map trim (split CHR '','' ''ca9,bogus,scotus'') = [''ca9'', ''bogus'', ''scotus'']"
  by code_simp

lemma four_known:
  "knownId fourDirectory ''ca9''" "knownId fourDirectory ''scotus''"
  "\<not> knownId fourDirectory ''bogus''"
  by code_simp+

lemma trim_padded:
  assumes l: "list_all isSpace l" and r: "list_all isSpace r"
    and c: "core \<noteq> []" "\<not> isSpace (hd core)" "\<not> isSpace (last core)"
  shows "trim (l @ core @ r) = core"
proof -
  have "dropWhile isSpace (l @ core @ r) = dropWhile isSpace (core @ r)"
    using l by (intro dropWhile_append2) (simp add: list_all_iff)
  also have "\<dots> = core @ r"
    using c by (cases core) simp_all
  finally have a: "dropWhile isSpace (l @ core @ r) = core @ r" .
  have "dropWhile isSpace (rev r @ rev core) = dropWhile isSpace (rev core)"
    using r by (intro dropWhile_append2) (simp add: list_all_iff)
  then have "dropWhile isSpace (rev (core @ r)) = dropWhile isSpace (rev core)"
    by simp
  also have "\<dots> = rev core"
    using c by (cases "rev core") (simp_all add: hd_rev)
  finally show ?thesis by (simp add: trim_def a)
qed

lemma trim_blank: "list_all isSpace s \<Longrightarrow> trim s = []"
proof -
  assume "list_all isSpace s"
  then have d: "dropWhile isSpace s = []" by (simp add: list_all_iff)
  show ?thesis unfolding trim_def d by simp
qed

lemma padded_example:
  "map trim (split CHR '','' '' ca9 , bogus,scotus '') = [''ca9'', ''bogus'', ''scotus'']"
  by code_simp


lemma blank_one: "list_all isSpace '' ''"
  by (simp add: isSpace_def)

lemma ca9_edges: "\<not> isSpace (hd ''ca9'')" "\<not> isSpace (last ''ca9'')"
  by (simp_all add: isSpace_def)

text \<open>
  Claim C3. For every directory and every token that contains a comma, the live resolver
  returns, without an error, the comma-separated parts of the token, trimmed, that are ids
  of the directory, in the order of the token; the other parts are dropped. Trimming
  takes the white space off both ends of a part: a part that is white space, a core that
  neither begins nor ends with white space, and white space again, is trimmed to the
  core, and a part of white space alone to the empty string. When \<open>ca9\<close> and \<open>scotus\<close>
  are ids of the directory and \<open>bogus\<close> is not, the token \<open>ca9,bogus,scotus\<close> resolves
  to \<open>ca9\<close>, \<open>scotus\<close>, and so does the token with blanks around its parts.
\<close>

theorem comma_list_filters:
  "(CHR '','' \<in> set tok \<longrightarrow>
      resolveJurisdiction (Some c) tok =
        Inr (filter (knownId c) (map trim (split CHR '','' tok))))
   \<and> (list_all isSpace l \<and> list_all isSpace r
        \<and> core \<noteq> [] \<and> \<not> isSpace (hd core) \<and> \<not> isSpace (last core) \<longrightarrow>
          trim (l @ core @ r) = core)
   \<and> (list_all isSpace l \<longrightarrow> trim l = [])
   \<and> (knownId c ''ca9'' \<and> knownId c ''scotus'' \<and> \<not> knownId c ''bogus'' \<longrightarrow>
        resolveJurisdiction (Some c) ''ca9,bogus,scotus'' = Inr [''ca9'', ''scotus'']
        \<and> resolveJurisdiction (Some c) '' ca9 , bogus,scotus '' = Inr [''ca9'', ''scotus''])"
proof -
  have "CHR '','' \<in> set ''ca9,bogus,scotus''" by simp
  from resolve_comma[OF this, of c]
  have plain: "resolveJurisdiction (Some c) ''ca9,bogus,scotus'' =
          Inr (filter (knownId c) [''ca9'', ''bogus'', ''scotus''])"
    by (simp only: split_example)
  have "CHR '','' \<in> set '' ca9 , bogus,scotus ''" by simp
  from resolve_comma[OF this, of c]
  have padded: "resolveJurisdiction (Some c) '' ca9 , bogus,scotus '' =
          Inr (filter (knownId c) [''ca9'', ''bogus'', ''scotus''])"
    by (simp only: padded_example)
  show ?thesis
    by (simp add: resolve_comma trim_padded trim_blank plain padded)
qed

text \<open>
  Claim C3 on the directory of the four sample courts and a token with blanks around its
  parts.
\<close>

theorem comma_list_filters_witness:
  "CHR '','' \<in> set '' ca9 , bogus,scotus ''
   \<and> knownId fourDirectory ''ca9'' \<and> knownId fourDirectory ''scotus''
   \<and> \<not> knownId fourDirectory ''bogus''
   \<and> resolveJurisdiction (Some fourDirectory) '' ca9 , bogus,scotus ''
       = Inr (filter (knownId fourDirectory) (map trim (split CHR '','' '' ca9 , bogus,scotus '')))
   \<and> resolveJurisdiction (Some fourDirectory) '' ca9 , bogus,scotus '' = Inr [''ca9'', ''scotus'']
   \<and> resolveJurisdiction (Some fourDirectory) ''ca9,bogus,scotus'' = Inr [''ca9'', ''scotus'']
   \<and> list_all isSpace '' '' \<and> ''ca9'' \<noteq> [] \<and> \<not> isSpace (hd ''ca9'')
   \<and> \<not> isSpace (last ''ca9'')
   \<and> trim ('' '' @ ''ca9'' @ '' '') = ''ca9'' \<and> trim '' '' = []"
proof -
  note t = comma_list_filters[where tok="'' ca9 , bogus,scotus ''" and c=fourDirectory
      and l="'' ''" and r="'' ''" and core="''ca9''"]
  have h: "CHR '','' \<in> set '' ca9 , bogus,scotus ''" by simp
  have ne: "''ca9'' \<noteq> []" by simp
  show ?thesis using t h ne four_known blank_one ca9_edges by blast
qed

text \<open>
  Claim C10. For every directory and every token that contains a comma and none of whose
  comma-separated parts, trimmed, is an id of the directory, the live resolver returns the
  empty list and no error: the same result as for the token \<open>all\<close>.
\<close>

theorem comma_all_invalid_is_empty:
  assumes "CHR '','' \<in> set tok"
    and "list_all (\<lambda>part. \<not> knownId c (trim part)) (split CHR '','' tok)"
  shows "resolveJurisdiction (Some c) tok = Inr []
         \<and> resolveJurisdiction (Some c) tok = resolveJurisdiction (Some c) ''all''"
proof -
  have "filter (knownId c) (map trim (split CHR '','' tok)) = []"
    using assms(2) by (simp add: filter_empty_conv list_all_iff)
  then show ?thesis using resolve_comma[OF assms(1), of c] resolve_all by simp
qed

text \<open>Claim C10 on the directory of the four sample courts and the token \<open>bogus1,bogus2\<close>.\<close>

theorem comma_all_invalid_is_empty_witness:
  "CHR '','' \<in> set ''bogus1,bogus2''
   \<and> list_all (\<lambda>part. \<not> knownId fourDirectory (trim part)) (split CHR '','' ''bogus1,bogus2'')
   \<and> resolveJurisdiction (Some fourDirectory) ''bogus1,bogus2'' = Inr []
   \<and> resolveJurisdiction (Some fourDirectory) ''bogus1,bogus2''
       = resolveJurisdiction (Some fourDirectory) ''all''"
proof -
  have h1: "CHR '','' \<in> set ''bogus1,bogus2''" by simp
  have h2: "list_all (\<lambda>part. \<not> knownId fourDirectory (trim part))
              (split CHR '','' ''bogus1,bogus2'')" by code_simp
  show ?thesis using comma_all_invalid_is_empty[OF h1 h2] h1 h2 by blast
qed

text \<open>
  Claim C2, as the code has it. The live resolver compares the token with the ids as it
  is written, without folding its case: for every directory and every token that is,
  character for character, the id of a court of the directory, that contains no comma and
  whose normal form is no category keyword, it returns exactly the one-element list of
  that id.
\<close>

theorem exact_id_resolves:
  assumes "knownId c tok" and "CHR '','' \<notin> set tok" and "normalize tok \<notin> set sentinelKeys"
  shows "resolveJurisdiction (Some c) tok = Inr [tok]"
  using assms by (simp add: resolve_exact)

text \<open>Claim C2 as amended, on the four sample courts and the token \<open>scotus\<close>.\<close>

theorem exact_id_resolves_witness:
  "knownId fourDirectory ''scotus'' \<and> CHR '','' \<notin> set ''scotus''
   \<and> normalize ''scotus'' \<notin> set sentinelKeys
   \<and> resolveJurisdiction (Some fourDirectory) ''scotus'' = Inr [''scotus'']"
proof -
  have h1: "knownId fourDirectory ''scotus''" by code_simp
  have h2: "CHR '','' \<notin> set ''scotus''" by simp
  have h3: "normalize ''scotus'' \<notin> set sentinelKeys" by code_simp
  show ?thesis using exact_id_resolves[OF h1 h2 h3] h1 h2 h3 by blast
qed

text \<open>
  Claim C2 as stated fails: \<open>SCOTUS\<close> is the id \<open>scotus\<close> in another casing, and the live
  resolver answers it with the unrecognized-jurisdiction error.
\<close>

theorem any_casing_counterexample:
  "toLowerCase ''SCOTUS'' = ''scotus'' \<and> knownId fourDirectory ''scotus''
   \<and> resolveJurisdiction (Some fourDirectory) ''SCOTUS'' = Inl (Unrecognized ''SCOTUS'')"
  by code_simp

section \<open>The resolver over the generated mapping file\<close>

lemma map_of_assign_fold:
  "map_of (foldl (\<lambda>m name. AList.update name v m) m names) k =
     (if k \<in> set names then Some v else map_of m k)"
  by (induction names arbitrary: m) (auto simp add: update_conv')

lemma map_of_assignNames:
  "map_of (assignNames c m var) k =
     (if k \<in> set (fst var)
      then Some (map id_of (filter (matchesCodes (snd var)) (all_courts c)))
      else map_of m k)"
  by (simp add: assignNames_def Let_def map_of_assign_fold)

lemma map_of_variations_other:
  "k \<notin> set (concat (map fst vars)) \<Longrightarrow>
   map_of (foldl (assignNames c) m vars) k = map_of m k"
  by (induction vars arbitrary: m) (auto simp add: map_of_assignNames)

lemma all_not_state_name: "''all'' \<notin> set (concat (map fst stateVariations))"
  by (simp add: stateVariations_def)

lemma zzzz_not_state_name: "''zzzznotreal'' \<notin> set (concat (map fst stateVariations))"
  by (simp add: stateVariations_def)

lemma lower_all: "toLowerCase ''all'' = ''all''"
  by code_simp

lemma lower_zzzz: "toLowerCase ''zzzznotreal'' = ''zzzznotreal''"
  by code_simp

lemma mapping_all: "map_of (generateMappingResources c) ''all'' = Some []"
  using map_of_variations_other[OF all_not_state_name]
  by (simp add: generateMappingResources_def)

lemma mapping_zzzz: "map_of (generateMappingResources c) ''zzzznotreal'' = None"
  using map_of_variations_other[OF zzzz_not_state_name]
  by (simp add: generateMappingResources_def)

text \<open>
  Claim C1. The live resolver answers \<open>all\<close> with the empty list for every directory. The
  resolver over the mapping file does not: the generator stores the empty array under the
  key \<open>all\<close>, the manager returns it, and the server's wrapper throws on every result of
  length 0. For every directory \<open>all\<close> ends in the same unrecognized-jurisdiction error as
  \<open>zzzznotreal\<close>, so the caller cannot tell them apart.
\<close>

theorem all_keyword_unrecognized_over_resources:
  "resolveJurisdiction (Some c) ''all'' = Inr []
   \<and> CourtResourceManager_resolveJurisdiction (Some (generateMappingResources c)) ''all''
       = Own []
   \<and> resolveJurisdiction_resources (Some (generateMappingResources c)) ''all''
       = Inl (Unrecognized ''all'')
   \<and> resolveJurisdiction_resources (Some (generateMappingResources c)) ''zzzznotreal''
       = Inl (Unrecognized ''zzzznotreal'')"
proof -
  have p: "''zzzznotreal'' \<notin> set objectPrototypeKeys"
    by (simp add: objectPrototypeKeys_def)
  show ?thesis
    using mapping_all[of c] mapping_zzzz[of c] p
    by (simp add: resolveJurisdiction_resources_def CourtResourceManager_resolveJurisdiction_def
        getProperty_def lower_all lower_zzzz resolve_all)
qed

text \<open>Claim C1 on the mapping generated from the four sample courts.\<close>

theorem all_keyword_unrecognized_over_resources_witness:
  "resolveJurisdiction_resources (Some (generateMappingResources fourDirectory)) ''all''
     = Inl (Unrecognized ''all'')"
  using all_keyword_unrecognized_over_resources[of fourDirectory] by blast

section \<open>The state lookup\<close>

lemma table_codes: "map_of stateAbbreviations k = Some codes \<Longrightarrow> stateCodes k = Own codes"
  by (simp add: stateCodes_def getProperty_def)

text \<open>
  For a key of the table, the server's lookup filters the state courts of the cache, and
  the generator's lookup filters all the courts.
\<close>

lemma findCourtsByState_table_key:
  "map_of stateAbbreviations k = Some codes \<Longrightarrow>
   findCourtsByState (Some c) k = Inr (map id_of (filter (matchesCodes codes) (state c)))"
  by (simp add: findCourtsByState_def table_codes)

lemma findCourtsByState_generator_table_key:
  "map_of stateAbbreviations k = Some codes \<Longrightarrow>
   findCourtsByState_generator k c = Inr (filter (matchesCodes codes) (all_courts c))"
  by (simp add: findCourtsByState_generator_def table_codes)

text \<open>
  Claim C5. On the directory of the four sample courts the codes of \<open>california\<close> are
  \<open>ca\<close> and \<open>cal\<close>, and the ids of all the records that begin with one of them are
  \<open>ca9\<close>, \<open>cacd\<close>, \<open>cal\<close>: that is what the generator's lookup finds. The
  server's lookup returns \<open>cal\<close> alone, the one state court among them.
\<close>

theorem state_lookup_state_courts_only:
  "map_of stateAbbreviations ''california'' = Some [''ca'', ''cal'']
   \<and> map id_of (filter (matchesCodes [''ca'', ''cal'']) (all_courts fourDirectory))
       = [''ca9'', ''cacd'', ''cal'']
   \<and> findCourtsByState (Some fourDirectory) ''california'' = Inr [''cal'']
   \<and> map_sum id (map id_of) (findCourtsByState_generator ''california'' fourDirectory)
       = Inr [''ca9'', ''cacd'', ''cal'']"
  by code_simp

section \<open>Suggestions\<close>

lemma keywords_calfornia: "keywordSuggestions ''calfornia'' = []"
  by code_simp

lemma lower_calfornia: "toLowerCase ''calfornia'' = ''calfornia''"
  by code_simp

lemma uniq_Nil: "uniq xs = [] \<longleftrightarrow> xs = []"
  by (cases xs) simp_all

text \<open>
  Claim C9, as the code has it. For every directory, the suggestions for \<open>calfornia\<close> are
  the first five distinct ids of the courts, among the first 100, whose short or full
  name contains \<open>calfornia\<close> itself, in lower case; no keyword trigger adds to them (the
  trigger for \<open>california\<close> asks for \<open>ca\<close> without \<open>cal\<close>). The list is empty exactly when
  no such name exists.
\<close>

theorem suggest_calfornia_by_substring:
  "suggestSimilarJurisdictions (Some c) ''calfornia'' =
     take 5 (uniq (map id_of (filter (nameContains ''calfornia'') (take 100 (all_courts c)))))
   \<and> (suggestSimilarJurisdictions (Some c) ''calfornia'' = []) =
       (filter (nameContains ''calfornia'') (take 100 (all_courts c)) = [])"
  by (simp add: suggestSimilarJurisdictions_def keywords_calfornia lower_calfornia Let_def
      uniq_Nil)

text \<open>
  Claim C9 as amended, on a directory where \<open>calfornia\<close> occurs in the short name of
  \<open>calx\<close> only, in the full name of \<open>caly\<close> only, and in no name of \<open>tax\<close>.
\<close>

theorem suggest_calfornia_by_substring_witness:
  "suggestSimilarJurisdictions (Some typoDirectory) ''calfornia'' = [''calx'', ''caly'']"
proof -
  have "take 5 (uniq (map id_of (filter (nameContains ''calfornia'')
          (take 100 (all_courts typoDirectory))))) = [''calx'', ''caly'']"
    by code_simp
  then show ?thesis using suggest_calfornia_by_substring[of typoDirectory] by simp
qed

text \<open>
  Claim C9 as stated fails: the directory of the four sample courts holds courts of
  California, and the suggestions for \<open>calfornia\<close> are empty.
\<close>

theorem suggest_calfornia_counterexample:
  "list_ex (\<lambda>court. includes_str (toLowerCase (full_name court)) ''california'')
     (all_courts fourDirectory)
   \<and> suggestSimilarJurisdictions (Some fourDirectory) ''calfornia'' = []"
  by code_simp

section \<open>Acquisition\<close>

lemma loop_stop:
  "\<not> (hasMore \<and> length acc < 4000) \<Longrightarrow> discoverLoop source acc page hasMore = Some acc"
  by (subst discoverLoop.simps) auto

lemma loop_fail:
  "hasMore \<Longrightarrow> length acc < 4000 \<Longrightarrow> source page = Inl e \<Longrightarrow>
   discoverLoop source acc page hasMore = Some []"
  by (subst discoverLoop.simps) simp

lemma loop_page:
  "hasMore \<Longrightarrow> length acc < 4000 \<Longrightarrow> source page = Inr (results, nxt) \<Longrightarrow>
   discoverLoop source acc page hasMore = discoverLoop source (acc @ results) (page + 1) nxt"
  by (subst discoverLoop.simps) simp

lemma discover_failing: "discoverCourts failingSource = Some []"
  by (simp add: discoverCourts_def loop_fail[where e="()"] failingSource_def)

lemma fetched_Suc: "1 \<le> p \<Longrightarrow> fetched source (Suc p) = fetched source p @ pageRecords source p"
  by (simp add: fetched_def)

lemma fetched_mono: "p \<le> k \<Longrightarrow> length (fetched source p) \<le> length (fetched source k)"
proof (induction k)
  case 0
  then show ?case by simp
next
  case (Suc k)
  show ?case
  proof (cases "p = Suc k")
    case True
    then show ?thesis by simp
  next
    case False
    then have pk: "p \<le> k" using Suc.prems by simp
    show ?thesis
    proof (cases "1 \<le> k")
      case True
      then show ?thesis using Suc.IH[OF pk] by (simp add: fetched_Suc)
    next
      case False
      then show ?thesis using pk by (simp add: fetched_def)
    qed
  qed
qed

lemma loop_reaches_failure:
  assumes f: "failsAtPage source k"
  shows "1 \<le> page \<Longrightarrow> page \<le> k \<Longrightarrow>
         discoverLoop source (fetched source page) page True = Some []"
proof (induction "k - page" arbitrary: page)
  case 0
  then have pk: "page = k" by simp
  have "length (fetched source k) < 4000" "source k = Inl ()"
    using f by (simp_all add: failsAtPage_def)
  then show ?case using pk by (simp add: loop_fail)
next
  case (Suc n)
  then have lt: "page < k" by simp
  obtain results where src: "source page = Inr (results, True)"
    using f Suc.prems lt by (auto simp add: failsAtPage_def)
  have "length (fetched source page) \<le> length (fetched source k)"
    using Suc.prems by (simp add: fetched_mono)
  then have room: "length (fetched source page) < 4000"
    using f by (simp add: failsAtPage_def)
  have nxt: "fetched source (Suc page) = fetched source page @ results"
    using Suc.prems src by (simp add: fetched_Suc pageRecords_def)
  have "discoverLoop source (fetched source page) page True
        = discoverLoop source (fetched source page @ results) (page + 1) True"
    using room src by (simp add: loop_page)
  also have "\<dots> = Some []"
    using Suc.hyps(1)[of "Suc page"] Suc.hyps(2) lt nxt by simp
  finally show ?case .
qed

lemma discover_fails: "failsAtPage source k \<Longrightarrow> discoverCourts source = Some []"
  using loop_reaches_failure[of source k 1]
  by (simp add: discoverCourts_def failsAtPage_def fetched_def)

lemma fetched_failsSecond: "fetched failsSecond 2 = fourCourts"
  by (simp add: fetched_def pageRecords_def failsSecond_def upt_rec)

lemma failsSecond_fails: "failsAtPage failsSecond 2"
proof -
  have "\<And>page. 1 \<le> page \<and> page < (2::nat) \<Longrightarrow> page = 1" by arith
  then show ?thesis
    by (auto simp add: failsAtPage_def fetched_failsSecond failsSecond_def fourCourts_def)
qed

lemma discover_fullThenLast:
  "discoverCourts fullThenLast =
     Some (replicate 200 (sampleCourt ''ca9'' ''9th Cir.'' ''9th Cir.'' ''F'') @ fourCourts)"
proof -
  let ?p = "replicate 200 (sampleCourt ''ca9'' ''9th Cir.'' ''9th Cir.'' ''F'')"
  have "discoverLoop fullThenLast [] 1 True = discoverLoop fullThenLast ([] @ ?p) (1 + 1) True"
    by (rule loop_page) (simp_all add: fullThenLast_def)
  also have "\<dots> = discoverLoop fullThenLast (([] @ ?p) @ fourCourts) ((1 + 1) + 1) False"
    by (rule loop_page) (simp_all add: fullThenLast_def)
  also have "\<dots> = Some (([] @ ?p) @ fourCourts)"
    by (rule loop_stop) simp
  finally show ?thesis by (simp add: discoverCourts_def)
qed

lemma loop_terminates:
  assumes prod: "productive source" and lim: "pageLimit n source"
  shows "length acc < 4000 + n \<Longrightarrow>
         \<exists>courts. discoverLoop source acc page hasMore = Some courts \<and> length courts < 4000 + n"
proof (induction "4000 - length acc" arbitrary: acc page hasMore rule: less_induct)
  case less
  show ?case
  proof (cases "hasMore \<and> length acc < 4000")
    case False
    then show ?thesis using less.prems by (simp add: loop_stop)
  next
    case True
    show ?thesis
    proof (cases "source page")
      case (Inl e)
      with True show ?thesis by (simp add: loop_fail)
    next
      case (Inr pr)
      obtain results nxt where pr: "pr = (results, nxt)" by (cases pr)
      have src: "source page = Inr (results, nxt)" using Inr pr by simp
      have len: "length results \<le> n" using lim src by (auto simp add: pageLimit_def)
      have unf: "discoverLoop source acc page hasMore
                 = discoverLoop source (acc @ results) (page + 1) nxt"
        using True src by (simp add: loop_page)
      have bound: "length (acc @ results) < 4000 + n" using True len by simp
      show ?thesis
      proof (cases nxt)
        case False
        then show ?thesis using unf bound by (simp add: loop_stop)
      next
        case nt: True
        then have "results \<noteq> []" using prod src by (auto simp add: productive_def)
        then have "4000 - length (acc @ results) < 4000 - length acc"
          using True by (cases results) auto
        from less.hyps[OF this bound] unf show ?thesis by simp
      qed
    qed
  qed
qed

lemma loop_full_pages:
  assumes full: "fullPages source"
  shows "length acc \<le> 4000 \<Longrightarrow> (hasMore \<Longrightarrow> 200 dvd length acc) \<Longrightarrow>
         \<exists>courts. discoverLoop source acc page hasMore = Some courts \<and> length courts \<le> 4000"
proof (induction "4000 - length acc" arbitrary: acc page hasMore rule: less_induct)
  case less
  show ?case
  proof (cases "hasMore \<and> length acc < 4000")
    case False
    then show ?thesis using less.prems by (simp add: loop_stop)
  next
    case True
    then have "200 dvd length acc" using less.prems by simp
    then obtain k where k: "length acc = 200 * k" by (auto elim: dvdE)
    have "length acc < 4000" using True by simp
    then have room: "length acc + 200 \<le> 4000" using k by arith
    show ?thesis
    proof (cases "source page")
      case (Inl e)
      with True show ?thesis by (simp add: loop_fail)
    next
      case (Inr pr)
      obtain results nxt where pr: "pr = (results, nxt)" by (cases pr)
      have src: "source page = Inr (results, nxt)" using Inr pr by simp
      have unf: "discoverLoop source acc page hasMore
                 = discoverLoop source (acc @ results) (page + 1) nxt"
        using True src by (simp add: loop_page)
      show ?thesis
      proof (cases nxt)
        case False
        then have "length results \<le> 200" using full src by (auto simp add: fullPages_def)
        then have "length (acc @ results) \<le> 4000" using room by simp
        then show ?thesis using unf False by (simp add: loop_stop)
      next
        case nt: True
        then have len: "length results = 200" using full src by (auto simp add: fullPages_def)
        have m: "4000 - length (acc @ results) < 4000 - length acc" using len room by simp
        have b: "length (acc @ results) \<le> 4000" using len room by simp
        have d: "nxt \<Longrightarrow> 200 dvd length (acc @ results)"
          using len \<open>200 dvd length acc\<close> by simp
        from less.hyps[OF m b d] unf show ?thesis by simp
      qed
    qed
  qed
qed

lemma emptyForever_never:
  assumes "discoverLoop source acc page hasMore = Some y"
  shows "\<not> (source = emptyForever \<and> acc = [] \<and> hasMore)"
proof (rule discoverLoop.raw_induct[where
      P="\<lambda>source acc page hasMore y. \<not> (source = emptyForever \<and> acc = [] \<and> hasMore)",
      OF _ assms])
  fix f source acc page hasMore y
  assume ih: "\<And>source acc page hasMore y. f source acc page hasMore = Some y \<Longrightarrow>
                \<not> (source = emptyForever \<and> acc = [] \<and> hasMore)"
    and body: "(if hasMore \<and> length acc < 4000
      then (case source page of
              Inl _ \<Rightarrow> Some []
            | Inr (results, nxt) \<Rightarrow> f source (acc @ results) (page + 1) nxt)
      else Some acc) = Some (y::RawCourt list)"
  show "\<not> (source = emptyForever \<and> acc = [] \<and> hasMore)"
  proof (rule notI)
    assume a: "source = emptyForever \<and> acc = [] \<and> hasMore"
    then have "f emptyForever [] (page + 1) True = Some y"
      using body by (simp add: emptyForever_def)
    from ih[OF this] show False by simp
  qed
qed

text \<open>
  Claim C7, as the code has it. The loop asks for a page only while a further page is
  announced and fewer than 4000 records are held. For every page source whose pages that
  announce a further page are not empty and whose pages hold at most 200 records, the
  acquisition returns, with fewer than 4200 records (the ceiling is tested before a page
  is added, and nothing is cut off afterwards). For every page source whose pages that
  announce a further page hold exactly 200 records, and whose last page holds at most
  200, the acquisition returns at most 4000 records. For every page source where the
  loop comes to a request that fails, the acquisition returns the empty sequence.
\<close>

theorem acquisition_returns_when_pages_fill:
  "(productive source \<and> pageLimit 200 source \<longrightarrow>
      (\<exists>courts. discoverCourts source = Some courts \<and> length courts < 4200))
   \<and> (fullPages source \<longrightarrow>
      (\<exists>courts. discoverCourts source = Some courts \<and> length courts \<le> 4000))
   \<and> (failsAtPage source k \<longrightarrow> discoverCourts source = Some [])"
proof (intro conjI impI)
  assume "productive source \<and> pageLimit 200 source"
  then show "\<exists>courts. discoverCourts source = Some courts \<and> length courts < 4200"
    using loop_terminates[of source 200 "[]" 1 True] by (simp add: discoverCourts_def)
next
  assume "fullPages source"
  then show "\<exists>courts. discoverCourts source = Some courts \<and> length courts \<le> 4000"
    using loop_full_pages[of source "[]" True 1] by (simp add: discoverCourts_def)
next
  assume "failsAtPage source k"
  then show "discoverCourts source = Some []" by (rule discover_fails)
qed

text \<open>
  Claim C7 as amended, on a source of two pages: a full page that announces a further
  page, and a last page with the four sample courts; and on the source whose second
  request fails.
\<close>

theorem acquisition_returns_when_pages_fill_witness:
  "productive fullThenLast \<and> pageLimit 200 fullThenLast \<and> fullPages fullThenLast
   \<and> discoverCourts fullThenLast =
       Some (replicate 200 (sampleCourt ''ca9'' ''9th Cir.'' ''9th Cir.'' ''F'') @ fourCourts)
   \<and> length (replicate 200 (sampleCourt ''ca9'' ''9th Cir.'' ''9th Cir.'' ''F'') @ fourCourts)
       \<le> 4000
   \<and> failsAtPage failsSecond 2 \<and> discoverCourts failsSecond = Some []"
proof -
  have h1: "productive fullThenLast"
    by (auto simp add: productive_def fullThenLast_def split: if_splits)
  have h2: "pageLimit 200 fullThenLast"
    by (auto simp add: pageLimit_def fullThenLast_def fourCourts_def split: if_splits)
  have h3: "fullPages fullThenLast"
    by (auto simp add: fullPages_def fullThenLast_def fourCourts_def split: if_splits)
  from acquisition_returns_when_pages_fill[of fullThenLast] h3
  have len: "length (replicate 200 (sampleCourt ''ca9'' ''9th Cir.'' ''9th Cir.'' ''F'') @ fourCourts)
          \<le> 4000"
    by (simp only: discover_fullThenLast) blast
  have f: "discoverCourts failsSecond = Some []"
    using acquisition_returns_when_pages_fill[of failsSecond 2] failsSecond_fails by blast
  show ?thesis using h1 h2 h3 discover_fullThenLast len failsSecond_fails f by blast
qed

text \<open>
  Claim C7 as stated fails: on the source whose every page is empty and announces a
  further page, the record count stays 0 and the loop never ends.
\<close>

theorem empty_pages_never_end: "discoverCourts emptyForever = None"
proof (cases "discoverCourts emptyForever")
  case None
  then show ?thesis .
next
  case (Some y)
  then show ?thesis
    using emptyForever_never[of emptyForever "[]" 1 True y] by (simp add: discoverCourts_def)
qed

section \<open>The cache\<close>

lemma needs_expired: "needsRefresh expiredServer 1"
  by (simp add: needsRefresh_def expiredServer_def)

lemma four_nonempty: "all_courts fourDirectory \<noteq> []"
  by (simp add: fourDirectory_def categorize_eq fourCourts_def usable_def sampleCourt_def Let_def)

text \<open>
  Claim C6, as the code has it. When the loop of \<open>discoverCourts\<close> comes to a request
  that fails, on the first page or after pages that were delivered, the failure is
  caught and \<open>discoverCourts\<close> returns the empty sequence, not the records fetched so
  far. When the cache is absent or expired, \<open>ensureCourtCache\<close> then returns normally,
  with the cache replaced by the empty directory and the expiry set 15 days after the
  call, whatever the cache held before.
\<close>

theorem failed_acquisition_caches_empty:
  assumes "failsAtPage source k" and "needsRefresh s now"
  shows "discoverCourts source = Some []
         \<and> ensureCourtCache source now s =
           Some (s\<lparr>courtCache := Some emptyCache, cacheExpiry := Some (now + CACHE_DURATION)\<rparr>)"
  using discover_fails[OF assms(1)] assms(2)
  by (simp add: ensureCourtCache_def storeCourts_def categorize_Nil)

text \<open>
  Claim C6 as amended, on the expired cache of the four sample courts and the source whose
  first page is delivered and whose second request fails.
\<close>

theorem failed_acquisition_caches_empty_witness:
  "failsAtPage failsSecond 2 \<and> needsRefresh expiredServer 1
   \<and> discoverCourts failsSecond = Some []
   \<and> ensureCourtCache failsSecond 1 expiredServer =
       Some (expiredServer\<lparr>courtCache := Some emptyCache,
                           cacheExpiry := Some (1 + CACHE_DURATION)\<rparr>)"
  using failed_acquisition_caches_empty[OF failsSecond_fails needs_expired]
    failsSecond_fails needs_expired
  by blast

text \<open>
  Claim C6 as stated fails: the expired cache holds the four sample courts, the
  acquisition fails (on the first request, or on the second), and afterwards the cache
  holds the empty directory; with no cache at all the call returns as well, with the
  empty directory.
\<close>

theorem stale_snapshot_lost:
  "courtCache expiredServer = Some fourDirectory \<and> all_courts fourDirectory \<noteq> []
   \<and> ensureCourtCache failingSource 1 expiredServer =
        Some \<lparr>courtCache = Some emptyCache, cacheExpiry = Some (1 + CACHE_DURATION)\<rparr>
   \<and> ensureCourtCache failsSecond 1 expiredServer =
        Some \<lparr>courtCache = Some emptyCache, cacheExpiry = Some (1 + CACHE_DURATION)\<rparr>
   \<and> ensureCourtCache failingSource 1 freshServer =
        Some \<lparr>courtCache = Some emptyCache, cacheExpiry = Some (1 + CACHE_DURATION)\<rparr>"
  by (simp add: four_nonempty ensureCourtCache_def discover_failing
      discover_fails[OF failsSecond_fails] needsRefresh_def
      expiredServer_def freshServer_def storeCourts_def categorize_Nil)

lemma step_call_stale:
  "needsRefresh (srv r) now \<Longrightarrow> step r (Call i now) =
     r\<lparr>acquisitions := acquisitions r + 1, inflight := (i, now) # inflight r\<rparr>"
  by (simp add: step_def)

lemma two_calls_inflight:
  "map_of (inflight (run expiredRuntime [Call 0 1000, Call 1 1001])) 0 = Some 1000"
  by (simp add: run_def step_def expiredRuntime_def expiredServer_def needsRefresh_def)

text \<open>
  Claim C8, as the code has it. \<open>ensureCourtCache\<close> keeps no record of an acquisition in
  flight: every call that finds the cache absent or expired starts an acquisition of its
  own. When each of a sequence of calls runs its first part before any acquisition has
  settled, and each finds the cache absent or expired, there are as many acquisitions as
  calls, and the cache is as it was. When the acquisition of one of these calls then
  settles, the cache is overwritten with the directory of its records and the expiry is
  counted from the time that call read the clock; no acquisition is added.
\<close>

theorem every_stale_call_acquires:
  "list_all (observesStale (srv r)) es \<Longrightarrow>
   acquisitions (run r es) = acquisitions r + length es \<and> srv (run r es) = srv r
   \<and> (map_of (inflight (run r es)) i = Some now \<longrightarrow>
        srv (step (run r es) (Settle i courts)) = storeCourts (srv r) now courts
        \<and> acquisitions (step (run r es) (Settle i courts)) = acquisitions r + length es)"
proof -
  assume a: "list_all (observesStale (srv r)) es"
  have main: "list_all (observesStale (srv r)) es \<Longrightarrow>
      acquisitions (run r es) = acquisitions r + length es \<and> srv (run r es) = srv r"
  proof (induction es arbitrary: r)
    case Nil
    show ?case by (simp add: run_def)
  next
    case (Cons e es)
    from Cons.prems obtain j t where e: "e = Call j t" and st: "needsRefresh (srv r) t"
      by (cases e) auto
    let ?r = "step r e"
    have s: "srv ?r = srv r" "acquisitions ?r = acquisitions r + 1"
      using e st by (simp_all add: step_call_stale)
    have "list_all (observesStale (srv ?r)) es" using Cons.prems s by simp
    from Cons.IH[OF this] s show ?case by (simp add: run_def)
  qed
  from main[OF a] show ?thesis by (simp add: step_def)
qed

text \<open>
  Claim C8 as amended, on two calls against the expired cache and the settling of the
  first.
\<close>

theorem every_stale_call_acquires_witness:
  "list_all (observesStale (srv expiredRuntime)) [Call 0 1000, Call 1 1001]
   \<and> acquisitions (run expiredRuntime [Call 0 1000, Call 1 1001]) = 2
   \<and> map_of (inflight (run expiredRuntime [Call 0 1000, Call 1 1001])) 0 = Some 1000
   \<and> srv (step (run expiredRuntime [Call 0 1000, Call 1 1001]) (Settle 0 fourCourts))
       = storeCourts expiredServer 1000 fourCourts
   \<and> courtCache (srv (step (run expiredRuntime [Call 0 1000, Call 1 1001])
        (Settle 0 fourCourts))) = Some (categorizeCourtsByJurisdiction fourCourts)"
proof -
  have h: "list_all (observesStale (srv expiredRuntime)) [Call 0 1000, Call 1 1001]"
    by (simp add: expiredRuntime_def expiredServer_def needsRefresh_def)
  note t = every_stale_call_acquires[OF h, of 0 1000 fourCourts]
  have s: "srv expiredRuntime = expiredServer" "acquisitions expiredRuntime = 0"
    by (simp_all add: expiredRuntime_def)
  show ?thesis using t h two_calls_inflight s by (simp add: storeCourts_def)
qed

text \<open>
  Claim C8 as stated fails: two calls find the cache expired, one after the other and
  before either acquisition has settled; when both have settled, two acquisitions have
  been performed.
\<close>

theorem two_callers_two_acquisitions:
  "acquisitions (run expiredRuntime
      [Call 0 1000, Call 1 1001, Settle 0 fourCourts, Settle 1 fourCourts]) = 2"
  by (simp add: run_def step_def expiredRuntime_def expiredServer_def needsRefresh_def
      storeCourts_def)

end
